theory Spec2Isabelle
  imports Complex_Main
begin

chapter \<open>The sampling and coordinate engine of the graphing engine\<close>

text \<open>
  A shallow embedding of \<open>PrecisionManager\<close>, \<open>AdaptiveSampler\<close>,
  \<open>GraphViewport\<close>, \<open>CircuitBreaker\<close> and \<open>marchingSquares\<close>, followed
  by the properties proved of them. Exceptions are values of a sum type
  (\<open>Inl\<close> the error), mutable objects are records passed in and returned.
\<close>

section \<open>Numbers, errors and the precision configuration\<close>

text \<open>
  A JavaScript number is a finite value, one of the two infinities, or NaN.
  Finite values are modelled as exact reals of magnitude at most
  \<open>MAX_VALUE\<close> (\<open>Number.MAX_VALUE\<close>); a result beyond that range
  overflows. Rounding of individual operations to binary64 (and to 30 decimal
  places in \<open>normalize\<close>) is outside this model, and so is the sign of zero.
\<close>

datatype jsnum = Fin real | PosInf | NegInf | NaN

definition MAX_VALUE :: real where
  "MAX_VALUE = (2 ^ 53 - 1) * 2 ^ 971"

fun isFinite :: "jsnum \<Rightarrow> bool" where
  "isFinite (Fin r) = True"
| "isFinite _ = False"


text \<open>
  \<open>DeterminismError\<close> is raised by the precision layer, \<open>CircuitBreakerError\<close>
  carries the breaker name, \<open>maxOperations\<close> and the actual operation count,
  \<open>UserError\<close> is any exception thrown by a caller-supplied callback.
\<close>

datatype error = DeterminismError | CircuitBreakerError string nat nat | UserError

text \<open>
  Of the process-wide \<open>PrecisionConfig\<close> only \<open>epsilon\<close> influences the
  operations below once rounding is left out; it is passed explicitly.
  \<open>PrecisionManager.operationCount\<close>, a statistic that none of the modelled
  code reads, is left out.
\<close>

record PrecisionConfig =
  epsilon :: real

definition defaultConfig :: PrecisionConfig where
  "defaultConfig = \<lparr> epsilon = 2220446049250313 / 10 ^ 31 \<rparr>"

section \<open>PrecisionManager\<close>

text \<open>
  The static methods of \<open>PrecisionManager\<close> carry the prefix \<open>pm_\<close>:
  \<open>divide\<close>, \<open>lessThan\<close> and \<open>greaterThan\<close> are names of HOL.

  \<open>finalizeResult\<close>: a non-finite converted value raises. The argument is the
  exact Decimal result; \<open>normalize\<close>, which only rounds a finite value, is the
  identity here.
\<close>

definition finalizeResult :: "real \<Rightarrow> error + jsnum" where
  "finalizeResult r = (if \<bar>r\<bar> > MAX_VALUE then Inl DeterminismError else Inr (Fin r))"

text \<open>
  \<open>PrecisionManager.add\<close>, \<open>subtract\<close>, \<open>multiply\<close>: \<open>validateInputs\<close>
  rejects a non-finite operand (the second equation), then the result is finalized.
\<close>

fun pm_add :: "jsnum \<Rightarrow> jsnum \<Rightarrow> error + jsnum" where
  "pm_add (Fin a) (Fin b) = finalizeResult (a + b)"
| "pm_add _ _ = Inl DeterminismError"

fun pm_subtract :: "jsnum \<Rightarrow> jsnum \<Rightarrow> error + jsnum" where
  "pm_subtract (Fin a) (Fin b) = finalizeResult (a - b)"
| "pm_subtract _ _ = Inl DeterminismError"

fun pm_multiply :: "jsnum \<Rightarrow> jsnum \<Rightarrow> error + jsnum" where
  "pm_multiply (Fin a) (Fin b) = finalizeResult (a * b)"
| "pm_multiply _ _ = Inl DeterminismError"

text \<open>\<open>PrecisionManager.divide\<close>: a divisor closer to zero than epsilon raises.\<close>

fun pm_divide :: "PrecisionConfig \<Rightarrow> jsnum \<Rightarrow> jsnum \<Rightarrow> error + jsnum" where
  "pm_divide cfg (Fin a) (Fin b) =
     (if \<bar>b\<bar> < epsilon cfg then Inl DeterminismError else finalizeResult (a / b))"
| "pm_divide cfg _ _ = Inl DeterminismError"

text \<open>
  \<open>PrecisionManager.compare\<close> with the configured epsilon (no caller in the
  modelled code passes its own): 0 within epsilon, otherwise -1 or 1.
\<close>

fun pm_compare :: "PrecisionConfig \<Rightarrow> jsnum \<Rightarrow> jsnum \<Rightarrow> error + int" where
  "pm_compare cfg (Fin a) (Fin b) =
     Inr (if \<bar>a - b\<bar> < epsilon cfg then 0 else if a < b then - 1 else 1)"
| "pm_compare cfg _ _ = Inl DeterminismError"

definition pm_greaterThan :: "PrecisionConfig \<Rightarrow> jsnum \<Rightarrow> jsnum \<Rightarrow> error + bool" where
  "pm_greaterThan cfg a b =
     (case pm_compare cfg a b of Inl e \<Rightarrow> Inl e | Inr c \<Rightarrow> Inr (c > 0))"

definition pm_lessThan :: "PrecisionConfig \<Rightarrow> jsnum \<Rightarrow> jsnum \<Rightarrow> error + bool" where
  "pm_lessThan cfg a b =
     (case pm_compare cfg a b of Inl e \<Rightarrow> Inl e | Inr c \<Rightarrow> Inr (c < 0))"

text \<open>
  \<open>PrecisionManager.lerp\<close>: \<open>(1 - t) * a + t * b\<close> through the checked
  operations. A NaN or infinite \<open>t\<close> raises as well (in the range test or in
  \<open>subtract\<close>).
\<close>

fun pm_lerp :: "jsnum \<Rightarrow> jsnum \<Rightarrow> jsnum \<Rightarrow> error + jsnum" where
  "pm_lerp (Fin a) (Fin b) (Fin t) =
     (if t < 0 \<or> t > 1 then Inl DeterminismError
      else case pm_subtract (Fin 1) (Fin t) of Inl e \<Rightarrow> Inl e
        | Inr oneMinusT \<Rightarrow>
            (case pm_multiply oneMinusT (Fin a) of Inl e \<Rightarrow> Inl e
             | Inr term1 \<Rightarrow>
                 (case pm_multiply (Fin t) (Fin b) of Inl e \<Rightarrow> Inl e
                  | Inr term2 \<Rightarrow> pm_add term1 term2)))"
| "pm_lerp _ _ _ = Inl DeterminismError"

definition pm_midpoint :: "jsnum \<Rightarrow> jsnum \<Rightarrow> error + jsnum" where
  "pm_midpoint a b = pm_lerp a b (Fin (1 / 2))"

section \<open>Adaptive sampler\<close>

record Point =
  px :: jsnum
  py :: jsnum

text \<open>A call of the user's evaluator either throws or returns a number.\<close>

datatype callres = Raise | Ret jsnum

text \<open>
  \<open>SamplingOptions\<close>: every field optional. Counts are natural numbers and the
  tolerance is a finite real; \<open>orDefault\<close> is JavaScript's \<open>v || d\<close> on them
  (an absent field and 0 both select the default).
\<close>

record SamplingOptions =
  opt_maxPoints :: "nat option"
  opt_tolerance :: "real option"
  opt_maxDepth :: "nat option"
  opt_maxOperations :: "nat option"

definition noOptions :: SamplingOptions where
  "noOptions = \<lparr> opt_maxPoints = None, opt_tolerance = None, opt_maxDepth = None,
                  opt_maxOperations = None \<rparr>"

fun orDefault :: "'a::zero option \<Rightarrow> 'a \<Rightarrow> 'a" where
  "orDefault None d = d"
| "orDefault (Some v) d = (if v = 0 then d else v)"

record AdaptiveSampler =
  maxPoints :: nat
  tolerance :: real
  maxDepth :: nat
  maxOperations :: nat

definition newAdaptiveSampler :: "SamplingOptions \<Rightarrow> AdaptiveSampler" where
  "newAdaptiveSampler options =
     \<lparr> maxPoints = orDefault (opt_maxPoints options) 10000,
       tolerance = orDefault (opt_tolerance options) (1 / 10),
       maxDepth = orDefault (opt_maxDepth options) 20,
       maxOperations = orDefault (opt_maxOperations options) 100000 \<rparr>"

definition isValid :: "jsnum \<Rightarrow> bool" where
  "isValid v = isFinite v"

definition safeEvaluate :: "(jsnum \<Rightarrow> callres) \<Rightarrow> jsnum \<Rightarrow> jsnum" where
  "safeEvaluate fn x =
     (case fn x of Raise \<Rightarrow> NaN | Ret result \<Rightarrow> if isValid result then result else NaN)"

text \<open>One iteration of the \<open>for\<close> loop of \<open>addPoints\<close>, for index \<open>i\<close>.\<close>

definition addPoint ::
  "PrecisionConfig \<Rightarrow> (jsnum \<Rightarrow> callres) \<Rightarrow> jsnum \<Rightarrow> jsnum \<Rightarrow> nat \<Rightarrow> Point list \<Rightarrow> nat
    \<Rightarrow> error + Point list" where
  "addPoint cfg fn a b count points i =
     (case (if count = 1 then Inr (Fin 0)
            else pm_divide cfg (Fin (real i)) (Fin (real count - 1))) of
        Inl e \<Rightarrow> Inl e
      | Inr t \<Rightarrow>
          (case pm_subtract b a of Inl e \<Rightarrow> Inl e
           | Inr interval \<Rightarrow>
               (case pm_multiply t interval of Inl e \<Rightarrow> Inl e
                | Inr ti \<Rightarrow>
                    (case pm_add a ti of Inl e \<Rightarrow> Inl e
                     | Inr x \<Rightarrow>
                         (let y = safeEvaluate fn x
                          in if isValid y then Inr (points @ [\<lparr> px = x, py = y \<rparr>])
                             else Inr points)))))"

text \<open>A loop body that may raise, run over a list of indices.\<close>

fun foldE :: "('s \<Rightarrow> 'a \<Rightarrow> error + 's) \<Rightarrow> 's \<Rightarrow> 'a list \<Rightarrow> error + 's" where
  "foldE f s [] = Inr s"
| "foldE f s (x # xs) = (case f s x of Inl e \<Rightarrow> Inl e | Inr s' \<Rightarrow> foldE f s' xs)"

definition addPoints ::
  "PrecisionConfig \<Rightarrow> (jsnum \<Rightarrow> callres) \<Rightarrow> jsnum \<Rightarrow> jsnum \<Rightarrow> Point list \<Rightarrow> nat
    \<Rightarrow> error + Point list" where
  "addPoints cfg fn a b points count = foldE (addPoint cfg fn a b count) points [0..<count]"

text \<open>
  The work stack holds \<open>(a, b, depth)\<close>; its head is the top (the end of the
  JavaScript array). \<open>sampleStep\<close> is the body of the \<open>while\<close> loop after the
  timeout check, for the popped interval; it returns the new stack and points.
\<close>

type_synonym interval = "jsnum \<times> jsnum \<times> nat"

definition sampleStep ::
  "PrecisionConfig \<Rightarrow> (jsnum \<Rightarrow> callres) \<Rightarrow> real \<Rightarrow> nat \<Rightarrow> interval \<Rightarrow> interval list
    \<Rightarrow> Point list \<Rightarrow> error + (interval list \<times> Point list)" where
  "sampleStep cfg fn localTolerance localMaxDepth iv stack points =
     (case iv of (a, b, depth) \<Rightarrow>
        if depth \<ge> localMaxDepth then
          (case addPoints cfg fn a b points 2 of Inl e \<Rightarrow> Inl e
           | Inr points' \<Rightarrow> Inr (stack, points'))
        else
          (case pm_midpoint a b of Inl e \<Rightarrow> Inl e
           | Inr mid \<Rightarrow>
               (let fa = safeEvaluate fn a; fb = safeEvaluate fn b; fm = safeEvaluate fn mid
                in if \<not> isValid fa \<or> \<not> isValid fb \<or> \<not> isValid fm then
                     (case addPoints cfg fn a b points 2 of Inl e \<Rightarrow> Inl e
                      | Inr points' \<Rightarrow> Inr (stack, points'))
                   else
                     (case pm_midpoint fa fb of Inl e \<Rightarrow> Inl e
                      | Inr expectedMidY \<Rightarrow>
                          (case pm_subtract fm expectedMidY of Inl e \<Rightarrow> Inl e
                           | Inr d \<Rightarrow>
                               (case pm_lessThan cfg
                                       (case d of Fin r \<Rightarrow> Fin \<bar>r\<bar> | PosInf \<Rightarrow> PosInf
                                        | NegInf \<Rightarrow> PosInf | NaN \<Rightarrow> NaN)
                                       (Fin localTolerance) of
                                  Inl e \<Rightarrow> Inl e
                                | Inr True \<Rightarrow>
                                    (case addPoints cfg fn a b points 2 of Inl e \<Rightarrow> Inl e
                                     | Inr points' \<Rightarrow> Inr (stack, points'))
                                | Inr False \<Rightarrow>
                                    Inr ((a, mid, depth + 1) # (mid, b, depth + 1) # stack,
                                         points)))))))"

text \<open>
  The \<open>while\<close> loop. \<open>g\<close> is \<open>OperationCounter.globalCounter\<close> and
  \<open>limit\<close> the timeout's \<open>operationLimit\<close>; the loop returns the points
  and the counter.
\<close>

function sampleLoop ::
  "PrecisionConfig \<Rightarrow> (jsnum \<Rightarrow> callres) \<Rightarrow> real \<Rightarrow> nat \<Rightarrow> nat \<Rightarrow> nat \<Rightarrow> interval list
    \<Rightarrow> Point list \<Rightarrow> nat \<Rightarrow> error + (Point list \<times> nat)" where
  "sampleLoop cfg fn localTolerance localMaxDepth localMaxPoints limit stack points g =
     (case stack of
        [] \<Rightarrow> Inr (points, g)
      | iv # rest \<Rightarrow>
          if \<not> length points < localMaxPoints then Inr (points, g)
          else if g + 1 \<ge> limit then Inr (points, g + 1)
          else
            (case sampleStep cfg fn localTolerance localMaxDepth iv rest points of
               Inl e \<Rightarrow> Inl e
             | Inr (stack', points') \<Rightarrow>
                 sampleLoop cfg fn localTolerance localMaxDepth localMaxPoints limit
                   stack' points' (g + 1)))"
  by pat_completeness auto
termination
  by (relation "measure (\<lambda>(cfg, fn, tol, md, mp, limit, stack, points, g). limit - g)") auto

declare sampleLoop.simps [simp del]

text \<open>
  \<open>Array.prototype.sort\<close> is a host function: ECMAScript asks for a stable
  sort and leaves the algorithm open. It is modelled as a stable insertion
  sort, in which each element is placed before the first element the comparator
  puts it strictly below. An exception of the comparator propagates.
\<close>

fun insertBy :: "('a \<Rightarrow> 'a \<Rightarrow> error + int) \<Rightarrow> 'a \<Rightarrow> 'a list \<Rightarrow> error + 'a list" where
  "insertBy cmp v [] = Inr [v]"
| "insertBy cmp v (w # ws) =
     (case cmp v w of Inl e \<Rightarrow> Inl e
      | Inr c \<Rightarrow>
          if c < 0 then Inr (v # w # ws)
          else (case insertBy cmp v ws of Inl e \<Rightarrow> Inl e | Inr r \<Rightarrow> Inr (w # r)))"

definition sortBy :: "('a \<Rightarrow> 'a \<Rightarrow> error + int) \<Rightarrow> 'a list \<Rightarrow> error + 'a list" where
  "sortBy cmp vs = foldE (\<lambda>acc v. insertBy cmp v acc) [] vs"

text \<open>
  \<open>AdaptiveSampler.sample\<close>. \<open>g\<close> is the global operation counter at the
  call; the timeout's limit is \<open>g\<close> plus the effective \<open>maxOperations\<close>.
\<close>

definition sample ::
  "AdaptiveSampler \<Rightarrow> PrecisionConfig \<Rightarrow> nat \<Rightarrow> (jsnum \<Rightarrow> callres) \<Rightarrow> jsnum \<times> jsnum
    \<Rightarrow> SamplingOptions \<Rightarrow> error + (Point list \<times> nat)" where
  "sample this cfg g fn domain options =
     (let limit = g + orDefault (opt_maxOperations options) (maxOperations this);
          localMaxPoints = orDefault (opt_maxPoints options) (maxPoints this);
          localTolerance = orDefault (opt_tolerance options) (tolerance this);
          localMaxDepth = orDefault (opt_maxDepth options) (maxDepth this)
      in case sampleLoop cfg fn localTolerance localMaxDepth localMaxPoints limit
                [(fst domain, snd domain, 0)] [] g of
           Inl e \<Rightarrow> Inl e
         | Inr (points, g') \<Rightarrow>
             (case sortBy (\<lambda>p q. pm_compare cfg (px p) (px q)) points of
                Inl e \<Rightarrow> Inl e
              | Inr sortedPoints \<Rightarrow> Inr (sortedPoints, g')))"



text \<open>Evaluators used in the examples below.\<close>

definition constZero :: "jsnum \<Rightarrow> callres" where
  "constZero v = Ret (Fin 0)"



section \<open>Viewport\<close>

definition bindE :: "error + 'a \<Rightarrow> ('a \<Rightarrow> error + 'b) \<Rightarrow> error + 'b" where
  "bindE m f = (case m of Inl e \<Rightarrow> Inl e | Inr v \<Rightarrow> f v)"

text \<open>JavaScript's short-circuit \<open>||\<close> on two conditions that may raise.\<close>

definition orE :: "error + bool \<Rightarrow> error + bool \<Rightarrow> error + bool" where
  "orE l r = (case l of Inl e \<Rightarrow> Inl e | Inr True \<Rightarrow> Inr True | Inr False \<Rightarrow> r)"

record Viewport =
  xMin :: jsnum
  xMax :: jsnum
  yMin :: jsnum
  yMax :: jsnum
  pixelRatio :: jsnum

record ViewportConstraints =
  minXRange :: jsnum
  minYRange :: jsnum
  maxXRange :: jsnum
  maxYRange :: jsnum
  maxZoomLevel :: jsnum

text \<open>\<open>Partial<Viewport>\<close> and \<open>Partial<ViewportConstraints>\<close>: a field is given or absent.\<close>

record ViewportPatch =
  p_xMin :: "jsnum option"
  p_xMax :: "jsnum option"
  p_yMin :: "jsnum option"
  p_yMax :: "jsnum option"
  p_pixelRatio :: "jsnum option"

record ConstraintsPatch =
  p_minXRange :: "jsnum option"
  p_minYRange :: "jsnum option"
  p_maxXRange :: "jsnum option"
  p_maxYRange :: "jsnum option"
  p_maxZoomLevel :: "jsnum option"

definition noPatch :: ViewportPatch where
  "noPatch = \<lparr> p_xMin = None, p_xMax = None, p_yMin = None, p_yMax = None,
               p_pixelRatio = None \<rparr>"

definition noConstraintsPatch :: ConstraintsPatch where
  "noConstraintsPatch = \<lparr> p_minXRange = None, p_minYRange = None, p_maxXRange = None,
                          p_maxYRange = None, p_maxZoomLevel = None \<rparr>"

definition orElse :: "'a option \<Rightarrow> 'a \<Rightarrow> 'a" where
  "orElse v d = (case v of None \<Rightarrow> d | Some w \<Rightarrow> w)"

text \<open>The object spread \<open>{...v, ...patch}\<close>.\<close>

definition spreadViewport :: "Viewport \<Rightarrow> ViewportPatch \<Rightarrow> Viewport" where
  "spreadViewport v p =
     \<lparr> xMin = orElse (p_xMin p) (xMin v), xMax = orElse (p_xMax p) (xMax v),
       yMin = orElse (p_yMin p) (yMin v), yMax = orElse (p_yMax p) (yMax v),
       pixelRatio = orElse (p_pixelRatio p) (pixelRatio v) \<rparr>"

definition spreadConstraints :: "ViewportConstraints \<Rightarrow> ConstraintsPatch \<Rightarrow> ViewportConstraints" where
  "spreadConstraints c p =
     \<lparr> minXRange = orElse (p_minXRange p) (minXRange c),
       minYRange = orElse (p_minYRange p) (minYRange c),
       maxXRange = orElse (p_maxXRange p) (maxXRange c),
       maxYRange = orElse (p_maxYRange p) (maxYRange c),
       maxZoomLevel = orElse (p_maxZoomLevel p) (maxZoomLevel c) \<rparr>"

definition defaultViewport :: Viewport where
  "defaultViewport = \<lparr> xMin = Fin (- 10), xMax = Fin 10, yMin = Fin (- 10), yMax = Fin 10,
                       pixelRatio = Fin 1 \<rparr>"

definition defaultConstraints :: ViewportConstraints where
  "defaultConstraints =
     \<lparr> minXRange = Fin (1 / 10 ^ 10), minYRange = Fin (1 / 10 ^ 10),
       maxXRange = Fin (10 ^ 12), maxYRange = Fin (10 ^ 12), maxZoomLevel = Fin (10 ^ 12) \<rparr>"

record GraphViewport =
  viewport :: Viewport
  constraints :: ViewportConstraints
  history :: "Viewport list"

definition maxHistorySize :: nat where
  "maxHistorySize = 50"

text \<open>\<open>saveToHistory\<close>: push a copy of the viewport, then \<open>shift\<close> once if over capacity.\<close>

definition saveToHistory :: "GraphViewport \<Rightarrow> GraphViewport" where
  "saveToHistory this =
     (let h = history this @ [viewport this]
      in this\<lparr> history := (if length h > maxHistorySize then tl h else h) \<rparr>)"

definition newGraphViewport :: "ViewportPatch \<Rightarrow> ConstraintsPatch \<Rightarrow> GraphViewport" where
  "newGraphViewport initialViewport constraintsArg =
     saveToHistory
       \<lparr> viewport = spreadViewport defaultViewport initialViewport,
         constraints = spreadConstraints defaultConstraints constraintsArg,
         history = [] \<rparr>"

definition width :: "GraphViewport \<Rightarrow> error + jsnum" where
  "width this = pm_subtract (xMax (viewport this)) (xMin (viewport this))"

definition height :: "GraphViewport \<Rightarrow> error + jsnum" where
  "height this = pm_subtract (yMax (viewport this)) (yMin (viewport this))"

definition center :: "GraphViewport \<Rightarrow> error + Point" where
  "center this =
     bindE (pm_midpoint (xMin (viewport this)) (xMax (viewport this))) (\<lambda>cx.
     bindE (pm_midpoint (yMin (viewport this)) (yMax (viewport this))) (\<lambda>cy.
     Inr \<lparr> px = cx, py = cy \<rparr>))"

text \<open>
  \<open>enforceConstraints\<close> works on the viewport in six steps, in this order:
  swap x, swap y, minimum x range, minimum y range, maximum x range, maximum y
  range. The four range steps share one shape: when the comparison fires, the
  axis is set to \<open>centre - r / 2\<close> and \<open>centre + r / 2\<close>
  (\<open>recentre\<close>).
\<close>

definition recentre ::
  "PrecisionConfig \<Rightarrow> jsnum \<Rightarrow> jsnum \<Rightarrow> jsnum \<Rightarrow> error + (jsnum \<times> jsnum)" where
  "recentre cfg lo hi r =
     bindE (pm_midpoint lo hi) (\<lambda>c.
     bindE (pm_divide cfg r (Fin 2)) (\<lambda>h1.
     bindE (pm_subtract c h1) (\<lambda>newLo.
     bindE (pm_divide cfg r (Fin 2)) (\<lambda>h2.
     bindE (pm_add c h2) (\<lambda>newHi.
     Inr (newLo, newHi))))))"

definition swapX :: "PrecisionConfig \<Rightarrow> Viewport \<Rightarrow> error + Viewport" where
  "swapX cfg v =
     bindE (pm_greaterThan cfg (xMin v) (xMax v)) (\<lambda>g.
     Inr (if g then v\<lparr> xMin := xMax v, xMax := xMin v \<rparr> else v))"

definition swapY :: "PrecisionConfig \<Rightarrow> Viewport \<Rightarrow> error + Viewport" where
  "swapY cfg v =
     bindE (pm_greaterThan cfg (yMin v) (yMax v)) (\<lambda>g.
     Inr (if g then v\<lparr> yMin := yMax v, yMax := yMin v \<rparr> else v))"

definition ensureMinX :: "PrecisionConfig \<Rightarrow> ViewportConstraints \<Rightarrow> Viewport \<Rightarrow> error + Viewport" where
  "ensureMinX cfg c v =
     bindE (pm_subtract (xMax v) (xMin v)) (\<lambda>w.
     bindE (pm_lessThan cfg w (minXRange c)) (\<lambda>l.
     if l then bindE (recentre cfg (xMin v) (xMax v) (minXRange c))
                 (\<lambda>(lo, hi). Inr (v\<lparr> xMin := lo, xMax := hi \<rparr>))
     else Inr v))"

definition ensureMinY :: "PrecisionConfig \<Rightarrow> ViewportConstraints \<Rightarrow> Viewport \<Rightarrow> error + Viewport" where
  "ensureMinY cfg c v =
     bindE (pm_subtract (yMax v) (yMin v)) (\<lambda>w.
     bindE (pm_lessThan cfg w (minYRange c)) (\<lambda>l.
     if l then bindE (recentre cfg (yMin v) (yMax v) (minYRange c))
                 (\<lambda>(lo, hi). Inr (v\<lparr> yMin := lo, yMax := hi \<rparr>))
     else Inr v))"

definition ensureMaxX :: "PrecisionConfig \<Rightarrow> ViewportConstraints \<Rightarrow> Viewport \<Rightarrow> error + Viewport" where
  "ensureMaxX cfg c v =
     bindE (pm_subtract (xMax v) (xMin v)) (\<lambda>w.
     bindE (pm_greaterThan cfg w (maxXRange c)) (\<lambda>g.
     if g then bindE (recentre cfg (xMin v) (xMax v) (maxXRange c))
                 (\<lambda>(lo, hi). Inr (v\<lparr> xMin := lo, xMax := hi \<rparr>))
     else Inr v))"

definition ensureMaxY :: "PrecisionConfig \<Rightarrow> ViewportConstraints \<Rightarrow> Viewport \<Rightarrow> error + Viewport" where
  "ensureMaxY cfg c v =
     bindE (pm_subtract (yMax v) (yMin v)) (\<lambda>w.
     bindE (pm_greaterThan cfg w (maxYRange c)) (\<lambda>g.
     if g then bindE (recentre cfg (yMin v) (yMax v) (maxYRange c))
                 (\<lambda>(lo, hi). Inr (v\<lparr> yMin := lo, yMax := hi \<rparr>))
     else Inr v))"

definition enforceConstraints ::
  "PrecisionConfig \<Rightarrow> ViewportConstraints \<Rightarrow> Viewport \<Rightarrow> error + Viewport" where
  "enforceConstraints cfg c v =
     bindE (swapX cfg v) (\<lambda>v1.
     bindE (swapY cfg v1) (\<lambda>v2.
     bindE (ensureMinX cfg c v2) (\<lambda>v3.
     bindE (ensureMinY cfg c v3) (\<lambda>v4.
     bindE (ensureMaxX cfg c v4) (\<lambda>v5.
     ensureMaxY cfg c v5)))))"

text \<open>
  The tail shared by \<open>pan\<close>, \<open>zoom\<close>, \<open>setViewport\<close> and \<open>fitToPoints\<close>:
  store the mutated viewport, enforce the constraints, record the state. An
  exception aborts the operation; the half-updated object it leaves behind is
  not modelled.
\<close>

definition commit :: "PrecisionConfig \<Rightarrow> GraphViewport \<Rightarrow> Viewport \<Rightarrow> error + GraphViewport" where
  "commit cfg this v =
     bindE (enforceConstraints cfg (constraints this) v) (\<lambda>v'.
     Inr (saveToHistory (this\<lparr> viewport := v' \<rparr>)))"

definition pan :: "PrecisionConfig \<Rightarrow> GraphViewport \<Rightarrow> jsnum \<Rightarrow> jsnum \<Rightarrow> error + GraphViewport" where
  "pan cfg this dx dy =
     bindE (pm_add (xMin (viewport this)) dx) (\<lambda>x0.
     bindE (pm_add (xMax (viewport this)) dx) (\<lambda>x1.
     bindE (pm_add (yMin (viewport this)) dy) (\<lambda>y0.
     bindE (pm_add (yMax (viewport this)) dy) (\<lambda>y1.
     commit cfg this ((viewport this)\<lparr> xMin := x0, xMax := x1, yMin := y0, yMax := y1 \<rparr>)))))"

definition zoom ::
  "PrecisionConfig \<Rightarrow> GraphViewport \<Rightarrow> jsnum \<Rightarrow> Point option \<Rightarrow> error + GraphViewport" where
  "zoom cfg this factor centerArg =
     bindE (case centerArg of Some c \<Rightarrow> Inr c | None \<Rightarrow> center this) (\<lambda>zoomCenter.
     bindE (width this) (\<lambda>w.
     bindE (pm_divide cfg w factor) (\<lambda>newWidth.
     bindE (height this) (\<lambda>h.
     bindE (pm_divide cfg h factor) (\<lambda>newHeight.
     bindE (orE (pm_lessThan cfg newWidth (minXRange (constraints this)))
                (pm_lessThan cfg newHeight (minYRange (constraints this)))) (\<lambda>tooSmall.
     if tooSmall then Inr this
     else
     bindE (orE (pm_greaterThan cfg newWidth (maxXRange (constraints this)))
                (pm_greaterThan cfg newHeight (maxYRange (constraints this)))) (\<lambda>tooLarge.
     if tooLarge then Inr this
     else
     bindE (pm_divide cfg (Fin 20) newWidth) (\<lambda>newZoomLevel.
     bindE (pm_greaterThan cfg newZoomLevel (maxZoomLevel (constraints this))) (\<lambda>tooDeep.
     if tooDeep then Inr this
     else
     bindE (pm_divide cfg newWidth (Fin 2)) (\<lambda>hw1.
     bindE (pm_subtract (px zoomCenter) hw1) (\<lambda>x0.
     bindE (pm_divide cfg newWidth (Fin 2)) (\<lambda>hw2.
     bindE (pm_add (px zoomCenter) hw2) (\<lambda>x1.
     bindE (pm_divide cfg newHeight (Fin 2)) (\<lambda>hh1.
     bindE (pm_subtract (py zoomCenter) hh1) (\<lambda>y0.
     bindE (pm_divide cfg newHeight (Fin 2)) (\<lambda>hh2.
     bindE (pm_add (py zoomCenter) hh2) (\<lambda>y1.
     commit cfg this
       ((viewport this)\<lparr> xMin := x0, xMax := x1, yMin := y0, yMax := y1 \<rparr>))))))))))))))))))"






definition reset :: "GraphViewport \<Rightarrow> GraphViewport" where
  "reset this =
     saveToHistory
       (this\<lparr> viewport := \<lparr> xMin = Fin (- 10), xMax = Fin 10, yMin = Fin (- 10),
                             yMax = Fin 10, pixelRatio = pixelRatio (viewport this) \<rparr> \<rparr>)"

text \<open>
  \<open>undo\<close> returns its boolean and the new state. \<open>pop\<close> on an empty array
  yields \<open>undefined\<close>, which is the \<open>None\<close> branch.
\<close>

definition pop :: "'a list \<Rightarrow> 'a option \<times> 'a list" where
  "pop h = (if h = [] then (None, []) else (Some (last h), butlast h))"

definition undo :: "GraphViewport \<Rightarrow> bool \<times> GraphViewport" where
  "undo this =
     (if length (history this) \<le> 1 then (False, this)
      else
        (let h1 = snd (pop (history this));
             (previous, h2) = pop h1
         in case previous of
              Some v \<Rightarrow> (True, saveToHistory (this\<lparr> viewport := v, history := h2 \<rparr>))
            | None \<Rightarrow> (False, this\<lparr> history := h2 \<rparr>)))"








text \<open>States used in the examples below.\<close>

definition narrowState :: GraphViewport where
  "narrowState = newGraphViewport (noPatch\<lparr> p_xMin := Some (Fin 0),
                                           p_xMax := Some (Fin (1999998 / 10 ^ 16)) \<rparr>)
                                  noConstraintsPatch"


text \<open>A viewport built with no arguments, and the states of the undo scenario.\<close>

definition freshViewport :: GraphViewport where
  "freshViewport = newGraphViewport noPatch noConstraintsPatch"

definition pannedOnce :: Viewport where
  "pannedOnce = \<lparr> xMin = Fin (- 9), xMax = Fin 11, yMin = Fin (- 9), yMax = Fin 11,
                  pixelRatio = Fin 1 \<rparr>"

definition pannedTwice :: Viewport where
  "pannedTwice = \<lparr> xMin = Fin (- 7), xMax = Fin 13, yMin = Fin (- 7), yMax = Fin 13,
                   pixelRatio = Fin 1 \<rparr>"

definition afterFirstPan :: GraphViewport where
  "afterFirstPan = \<lparr> viewport = pannedOnce, constraints = defaultConstraints,
                      history = [defaultViewport, defaultViewport, pannedOnce] \<rparr>"

definition afterSecondPan :: GraphViewport where
  "afterSecondPan = \<lparr> viewport = pannedTwice, constraints = defaultConstraints,
                       history = [defaultViewport, defaultViewport, pannedOnce, pannedTwice] \<rparr>"

text \<open>\<open>zoom\<close> called \<open>n\<close> times in a row with the same arguments.\<close>

fun zoomTimes ::
  "nat \<Rightarrow> PrecisionConfig \<Rightarrow> GraphViewport \<Rightarrow> jsnum \<Rightarrow> Point option \<Rightarrow> error + GraphViewport" where
  "zoomTimes 0 cfg this factor centerArg = Inr this"
| "zoomTimes (Suc n) cfg this factor centerArg =
     bindE (zoom cfg this factor centerArg) (\<lambda>s. zoomTimes n cfg s factor centerArg)"

definition zoomedNarrow :: GraphViewport where
  "zoomedNarrow =
     \<lparr> viewport = \<lparr> xMin = Fin (4999995 / 10 ^ 17), xMax = Fin (14999985 / 10 ^ 17),
                     yMin = Fin (- 5), yMax = Fin 5, pixelRatio = Fin 1 \<rparr>,
       constraints = defaultConstraints,
       history = [\<lparr> xMin = Fin 0, xMax = Fin (1999998 / 10 ^ 16), yMin = Fin (- 10),
                    yMax = Fin 10, pixelRatio = Fin 1 \<rparr>,
                  \<lparr> xMin = Fin (4999995 / 10 ^ 17), xMax = Fin (14999985 / 10 ^ 17),
                    yMin = Fin (- 5), yMax = Fin 5, pixelRatio = Fin 1 \<rparr>] \<rparr>"








section \<open>Circuit breaker\<close>

record CircuitBreaker =
  cb_name :: string
  cb_maxOperations :: nat
  operationCount :: nat
  isTripped :: bool

definition newCircuitBreaker :: "string \<Rightarrow> nat \<Rightarrow> CircuitBreaker" where
  "newCircuitBreaker nm n =
     \<lparr> cb_name = nm, cb_maxOperations = n, operationCount = 0, isTripped = False \<rparr>"

text \<open>
  A callback \<open>() => T\<close> acts on the rest of the program's state \<open>'w\<close> and
  either throws or returns; a callback that is not invoked leaves \<open>'w\<close> as it
  is. \<open>execute\<close> returns the outcome of the call, the breaker and the state.
\<close>

type_synonym ('w, 'a) callback = "'w \<Rightarrow> (error + 'a) \<times> 'w"

definition execute ::
  "CircuitBreaker \<Rightarrow> ('w, 'a) callback \<Rightarrow> ('w, 'a) callback option \<Rightarrow> 'w
    \<Rightarrow> (error + 'a) \<times> CircuitBreaker \<times> 'w" where
  "execute this fn fallback w =
     (let b1 = this\<lparr> operationCount := operationCount this + 1 \<rparr>
      in if operationCount b1 > cb_maxOperations b1 then
           (let b2 = b1\<lparr> isTripped := True \<rparr>
            in case fallback of
                 Some fb \<Rightarrow> (case fb w of (r, w') \<Rightarrow> (r, b2, w'))
               | None \<Rightarrow>
                   (Inl (CircuitBreakerError (cb_name b2) (cb_maxOperations b2)
                           (operationCount b2)), b2, w))
         else
           (case fn w of
              (Inl e, w') \<Rightarrow> (Inl e, b1\<lparr> isTripped := True \<rparr>, w')
            | (Inr v, w') \<Rightarrow> (Inr v, b1, w')))"

definition getTripped :: "CircuitBreaker \<Rightarrow> bool" where
  "getTripped this = isTripped this"

definition resetBreaker :: "CircuitBreaker \<Rightarrow> CircuitBreaker" where
  "resetBreaker this = this\<lparr> operationCount := 0, isTripped := False \<rparr>"

text \<open>
  A run of successive \<open>execute\<close> calls on one breaker (a thrown error is caught
  by the caller, who goes on calling): the breaker and the state after the run.
\<close>

fun executeAll ::
  "CircuitBreaker \<Rightarrow> (('w, 'a) callback \<times> ('w, 'a) callback option) list \<Rightarrow> 'w
    \<Rightarrow> CircuitBreaker \<times> 'w" where
  "executeAll b [] w = (b, w)"
| "executeAll b ((fn, fallback) # calls) w =
     (case execute b fn fallback w of (r, b', w') \<Rightarrow> executeAll b' calls w')"

text \<open>Callbacks on a counter, used in the example below.\<close>

definition bump :: "(nat, nat) callback" where
  "bump w = (Inr w, w + 1)"

definition failing :: "(nat, nat) callback" where
  "failing w = (Inl UserError, w + 10)"

section \<open>Marching squares\<close>

text \<open>
  The contour extractor computes with the host's arithmetic, which never raises:
  a result out of range becomes an infinity, an undefined one NaN.
\<close>

definition overflow :: "real \<Rightarrow> jsnum" where
  "overflow r = (if r > MAX_VALUE then PosInf else if r < - MAX_VALUE then NegInf else Fin r)"

fun jsNeg :: "jsnum \<Rightarrow> jsnum" where
  "jsNeg (Fin a) = Fin (- a)"
| "jsNeg PosInf = NegInf"
| "jsNeg NegInf = PosInf"
| "jsNeg NaN = NaN"

fun jsAdd :: "jsnum \<Rightarrow> jsnum \<Rightarrow> jsnum" where
  "jsAdd (Fin a) (Fin b) = overflow (a + b)"
| "jsAdd NaN _ = NaN"
| "jsAdd _ NaN = NaN"
| "jsAdd PosInf NegInf = NaN"
| "jsAdd NegInf PosInf = NaN"
| "jsAdd PosInf _ = PosInf"
| "jsAdd _ PosInf = PosInf"
| "jsAdd NegInf _ = NegInf"
| "jsAdd _ NegInf = NegInf"

definition jsSub :: "jsnum \<Rightarrow> jsnum \<Rightarrow> jsnum" where
  "jsSub a b = jsAdd a (jsNeg b)"

fun jsMul :: "jsnum \<Rightarrow> jsnum \<Rightarrow> jsnum" where
  "jsMul (Fin a) (Fin b) = overflow (a * b)"
| "jsMul NaN _ = NaN"
| "jsMul _ NaN = NaN"
| "jsMul (Fin a) PosInf = (if a = 0 then NaN else if a > 0 then PosInf else NegInf)"
| "jsMul (Fin a) NegInf = (if a = 0 then NaN else if a > 0 then NegInf else PosInf)"
| "jsMul PosInf (Fin b) = (if b = 0 then NaN else if b > 0 then PosInf else NegInf)"
| "jsMul NegInf (Fin b) = (if b = 0 then NaN else if b > 0 then NegInf else PosInf)"
| "jsMul PosInf PosInf = PosInf"
| "jsMul PosInf NegInf = NegInf"
| "jsMul NegInf PosInf = NegInf"
| "jsMul NegInf NegInf = PosInf"

text \<open>Division; a zero divisor is taken as positive zero.\<close>

fun jsDiv :: "jsnum \<Rightarrow> jsnum \<Rightarrow> jsnum" where
  "jsDiv (Fin a) (Fin b) =
     (if b = 0 then (if a = 0 then NaN else if a > 0 then PosInf else NegInf)
      else overflow (a / b))"
| "jsDiv NaN _ = NaN"
| "jsDiv _ NaN = NaN"
| "jsDiv (Fin a) _ = Fin 0"
| "jsDiv PosInf (Fin b) = (if b < 0 then NegInf else PosInf)"
| "jsDiv NegInf (Fin b) = (if b < 0 then PosInf else NegInf)"
| "jsDiv PosInf PosInf = NaN"
| "jsDiv PosInf NegInf = NaN"
| "jsDiv NegInf PosInf = NaN"
| "jsDiv NegInf NegInf = NaN"

fun jsGt :: "jsnum \<Rightarrow> jsnum \<Rightarrow> bool" where
  "jsGt (Fin a) (Fin b) = (a > b)"
| "jsGt NaN _ = False"
| "jsGt _ NaN = False"
| "jsGt NegInf _ = False"
| "jsGt _ NegInf = True"
| "jsGt PosInf (Fin b) = True"
| "jsGt _ PosInf = False"

record MarchingOptions =
  opt_cols :: "nat option"
  opt_rows :: "nat option"
  opt_iso :: "jsnum option"
  opt_maxSegments :: "nat option"

definition noMarchingOptions :: MarchingOptions where
  "noMarchingOptions = \<lparr> opt_cols = None, opt_rows = None, opt_iso = None,
                          opt_maxSegments = None \<rparr>"

text \<open>A grid entry: the value if the call returned a finite number, NaN otherwise.\<close>

definition gridValue :: "callres \<Rightarrow> jsnum" where
  "gridValue r = (case r of Raise \<Rightarrow> NaN | Ret v \<Rightarrow> if isFinite v then v else NaN)"

text \<open>The coordinate \<open>lo + k * d\<close> of grid line \<open>k\<close>.\<close>

definition gridCoord :: "jsnum \<Rightarrow> jsnum \<Rightarrow> nat \<Rightarrow> jsnum" where
  "gridCoord lo d k = jsAdd lo (jsMul (Fin (real k)) d)"

definition evalGrid ::
  "(jsnum \<Rightarrow> jsnum \<Rightarrow> callres) \<Rightarrow> jsnum \<Rightarrow> jsnum \<Rightarrow> jsnum \<Rightarrow> jsnum \<Rightarrow> nat \<Rightarrow> nat
    \<Rightarrow> jsnum list list" where
  "evalGrid fn xlo dx ylo dy cols rows =
     map (\<lambda>j. map (\<lambda>i. gridValue (fn (gridCoord xlo dx i) (gridCoord ylo dy j)))
                [0..<cols + 1])
         [0..<rows + 1]"

text \<open>
  \<open>sampleEdge\<close>; edge 0 is left, 1 top, 2 right, anything else bottom. The
  branches pick the two end points \<open>(x, y, v)\<close> of the edge;
  \<open>crossingPoint\<close> is the code after the branches, which interpolates between
  them. The indices read are inside the grid for every cell the loops visit.
\<close>

definition crossingPoint ::
  "jsnum \<Rightarrow> jsnum \<times> jsnum \<times> jsnum \<Rightarrow> jsnum \<times> jsnum \<times> jsnum \<Rightarrow> Point option" where
  "crossingPoint isoVal end1 end2 =
     (case (end1, end2) of
        ((x1, y1, v1), (x2, y2, v2)) \<Rightarrow>
          if \<not> isFinite v1 \<or> \<not> isFinite v2 then None
          else
            (let t = jsDiv (jsSub isoVal v1) (jsSub v2 v1)
             in if \<not> isFinite t then None
                else Some \<lparr> px = jsAdd x1 (jsMul t (jsSub x2 x1)),
                            py = jsAdd y1 (jsMul t (jsSub y2 y1)) \<rparr>))"

definition sampleEdge ::
  "jsnum list list \<Rightarrow> jsnum \<Rightarrow> jsnum \<Rightarrow> jsnum \<Rightarrow> jsnum \<Rightarrow> jsnum \<Rightarrow> nat \<Rightarrow> nat \<Rightarrow> nat
    \<Rightarrow> Point option" where
  "sampleEdge grid xlo dx ylo dy isoVal i j edge =
     (if edge = 0 then
        crossingPoint isoVal
          (gridCoord xlo dx i, gridCoord ylo dy j, grid ! j ! i)
          (gridCoord xlo dx i, gridCoord ylo dy (j + 1), grid ! (j + 1) ! i)
      else if edge = 1 then
        crossingPoint isoVal
          (gridCoord xlo dx i, gridCoord ylo dy (j + 1), grid ! (j + 1) ! i)
          (gridCoord xlo dx (i + 1), gridCoord ylo dy (j + 1), grid ! (j + 1) ! (i + 1))
      else if edge = 2 then
        crossingPoint isoVal
          (gridCoord xlo dx (i + 1), gridCoord ylo dy (j + 1), grid ! (j + 1) ! (i + 1))
          (gridCoord xlo dx (i + 1), gridCoord ylo dy j, grid ! j ! (i + 1))
      else
        crossingPoint isoVal
          (gridCoord xlo dx (i + 1), gridCoord ylo dy j, grid ! j ! (i + 1))
          (gridCoord xlo dx i, gridCoord ylo dy j, grid ! j ! i))"

definition edgeTable :: "nat list list" where
  "edgeTable =
     [[], [0, 3], [3, 2], [0, 2], [1, 2], [0, 1, 2, 3], [1, 3], [0, 1],
      [0, 1], [1, 3], [0, 1, 2, 3], [1, 2], [0, 2], [3, 2], [0, 3], []]"

definition above :: "jsnum \<Rightarrow> jsnum \<Rightarrow> nat" where
  "above isoVal v = (if isFinite v \<and> jsGt v isoVal then 1 else 0)"

text \<open>The polyline of cell \<open>(i, j)\<close>: the samples of its table edges that are not null.\<close>

definition cellPoly ::
  "jsnum list list \<Rightarrow> jsnum \<Rightarrow> jsnum \<Rightarrow> jsnum \<Rightarrow> jsnum \<Rightarrow> jsnum \<Rightarrow> nat \<Rightarrow> nat \<Rightarrow> Point list" where
  "cellPoly grid xlo dx ylo dy isoVal i j =
     (let b0 = above isoVal (grid ! j ! i);
          b1 = above isoVal (grid ! j ! (i + 1));
          b2 = above isoVal (grid ! (j + 1) ! (i + 1));
          b3 = above isoVal (grid ! (j + 1) ! i);
          idx = b0 + 2 * b1 + 4 * b2 + 8 * b3;
          edges = edgeTable ! idx
      in List.map_filter (sampleEdge grid xlo dx ylo dy isoVal i j) edges)"

text \<open>
  The two cell loops, over the cells in row-major order, with the early return
  once \<open>maxSegments\<close> polylines are collected.
\<close>

fun marchCells ::
  "(nat \<Rightarrow> nat \<Rightarrow> Point list) \<Rightarrow> nat \<Rightarrow> (nat \<times> nat) list \<Rightarrow> Point list list
    \<Rightarrow> Point list list" where
  "marchCells poly maxSeg [] segments = segments"
| "marchCells poly maxSeg ((i, j) # cells) segments =
     (let p = poly i j
      in if length p \<ge> 2 then
           (let segments' = segments @ [p]
            in if length segments' \<ge> maxSeg then segments'
               else marchCells poly maxSeg cells segments')
         else marchCells poly maxSeg cells segments)"

definition cellOrder :: "nat \<Rightarrow> nat \<Rightarrow> (nat \<times> nat) list" where
  "cellOrder cols rows = concat (map (\<lambda>j. map (\<lambda>i. (i, j)) [0..<cols]) [0..<rows])"

definition marchingSquares ::
  "(jsnum \<Rightarrow> jsnum \<Rightarrow> callres) \<Rightarrow> jsnum \<Rightarrow> jsnum \<Rightarrow> jsnum \<Rightarrow> jsnum \<Rightarrow> MarchingOptions
    \<Rightarrow> Point list list" where
  "marchingSquares fn xlo xhi ylo yhi options =
     (let cols = orDefault (opt_cols options) 128;
          rows = orDefault (opt_rows options) 128;
          isoVal = orElse (opt_iso options) (Fin 0);
          maxSeg = orDefault (opt_maxSegments options) 10000;
          dx = jsDiv (jsSub xhi xlo) (Fin (real cols));
          dy = jsDiv (jsSub yhi ylo) (Fin (real rows));
          grid = evalGrid fn xlo dx ylo dy cols rows
      in marchCells (cellPoly grid xlo dx ylo dy isoVal) maxSeg (cellOrder cols rows) [])"


text \<open>Functions and options used in the examples below.\<close>

definition heightFn :: "jsnum \<Rightarrow> jsnum \<Rightarrow> callres" where
  "heightFn u v = Ret (jsSub v (Fin (1 / 2)))"

definition oneCell :: MarchingOptions where
  "oneCell = noMarchingOptions\<lparr> opt_cols := Some 1, opt_rows := Some 1 \<rparr>"

section \<open>Basic facts\<close>

lemma MAX_VALUE_large: "10 ^ 15 \<le> MAX_VALUE"
proof -
  have "(2::real) ^ 50 \<le> 2 ^ 971" by (rule power_increasing) simp_all
  moreover have "(1::real) \<le> 2 ^ 53 - 1" by simp
  ultimately have "(2::real) ^ 50 \<le> (2 ^ 53 - 1) * 2 ^ 971"
    by (smt (verit) mult_le_cancel_right1 zero_less_power)
  moreover have "(10::real) ^ 15 \<le> 2 ^ 50" by simp
  ultimately show ?thesis unfolding MAX_VALUE_def by linarith
qed


lemma finalizeResult_ok: "\<bar>r\<bar> \<le> MAX_VALUE \<Longrightarrow> finalizeResult r = Inr (Fin r)"
  by (simp add: finalizeResult_def)

lemma finalizeResult_small: "\<bar>r\<bar> \<le> 10 ^ 15 \<Longrightarrow> finalizeResult r = Inr (Fin r)"
  using MAX_VALUE_large by (simp add: finalizeResult_def)

lemma epsilon_default: "epsilon defaultConfig = 2220446049250313 / 10 ^ 31"
  by (simp add: defaultConfig_def)

lemma upt_two: "[0..<2] = [0, Suc 0]"
  by (simp add: upt_rec eval_nat_numeral)

section \<open>The sampler on a constant function\<close>

lemma midpoint_zero_one: "pm_midpoint (Fin 0) (Fin 1) = Inr (Fin (1 / 2))"
  by (simp add: pm_midpoint_def finalizeResult_small)

lemma addPoints_constZero_unit:
  "addPoints defaultConfig constZero (Fin 0) (Fin 1) [] 2 =
     Inr [\<lparr>px = Fin 0, py = Fin 0\<rparr>, \<lparr>px = Fin 1, py = Fin 0\<rparr>]"
  by (simp add: addPoints_def upt_two addPoint_def finalizeResult_small epsilon_default
      safeEvaluate_def constZero_def isValid_def Let_def)

lemma sampleStep_constZero_unit:
  "sampleStep defaultConfig constZero (1 / 10) 20 (Fin 0, Fin 1, 0) [] [] =
     Inr ([], [\<lparr>px = Fin 0, py = Fin 0\<rparr>, \<lparr>px = Fin 1, py = Fin 0\<rparr>])"
  by (simp add: sampleStep_def addPoints_constZero_unit midpoint_zero_one safeEvaluate_def
      constZero_def isValid_def pm_midpoint_def finalizeResult_small pm_lessThan_def
      epsilon_default Let_def)

lemma sortBy_two_points:
  "sortBy (\<lambda>p q. pm_compare defaultConfig (px p) (px q))
     [\<lparr>px = Fin 0, py = Fin 0\<rparr>, \<lparr>px = Fin 1, py = Fin 0\<rparr>] =
   Inr [\<lparr>px = Fin 0, py = Fin 0\<rparr>, \<lparr>px = Fin 1, py = Fin 0\<rparr>]"
  by (simp add: sortBy_def epsilon_default)

lemma sampleLoop_constZero_unit:
  assumes "0 < mp"
  shows "sampleLoop defaultConfig constZero (1 / 10) 20 mp (g + 100000) [(Fin 0, Fin 1, 0)] [] g =
     Inr ([\<lparr>px = Fin 0, py = Fin 0\<rparr>, \<lparr>px = Fin 1, py = Fin 0\<rparr>], g + 1)"
proof -
  have "sampleLoop defaultConfig constZero (1 / 10) 20 mp (g + 100000) [(Fin 0, Fin 1, 0)] [] g =
     sampleLoop defaultConfig constZero (1 / 10) 20 mp (g + 100000) []
       [\<lparr>px = Fin 0, py = Fin 0\<rparr>, \<lparr>px = Fin 1, py = Fin 0\<rparr>] (g + 1)"
    using assms by (subst sampleLoop.simps) (simp add: sampleStep_constZero_unit)
  also have "\<dots> = Inr ([\<lparr>px = Fin 0, py = Fin 0\<rparr>, \<lparr>px = Fin 1, py = Fin 0\<rparr>], g + 1)"
    by (subst sampleLoop.simps) simp
  finally show ?thesis .
qed

lemma sample_constZero_unit:
  "sample (newAdaptiveSampler noOptions) defaultConfig g constZero (Fin 0, Fin 1)
     (noOptions\<lparr>opt_maxPoints := Some k\<rparr>) =
   Inr ([\<lparr>px = Fin 0, py = Fin 0\<rparr>, \<lparr>px = Fin 1, py = Fin 0\<rparr>], g + 1)"
  by (simp add: sample_def newAdaptiveSampler_def noOptions_def sampleLoop_constZero_unit
      sortBy_two_points)

text \<open>
  C1. The point list returned by \<open>sample\<close> is claimed to be no longer than the
  effective \<open>maxPoints\<close>. The loop tests the bound before an interval is
  processed and then adds two points at once: with the per-call override
  \<open>maxPoints = 1\<close>, a constant function on \<open>[0, 1]\<close> yields two points.
\<close>

theorem sample_exceeds_maxPoints:
  "sample (newAdaptiveSampler noOptions) defaultConfig 0 constZero (Fin 0, Fin 1)
     (noOptions\<lparr>opt_maxPoints := Some 1\<rparr>) =
   Inr ([\<lparr>px = Fin 0, py = Fin 0\<rparr>, \<lparr>px = Fin 1, py = Fin 0\<rparr>], 1)
   \<and> orDefault (opt_maxPoints (noOptions\<lparr>opt_maxPoints := Some 1\<rparr>))
        (maxPoints (newAdaptiveSampler noOptions)) = 1"
  using sample_constZero_unit [of 0 1] by simp

section \<open>Viewport: evaluation on small numbers\<close>


lemma pm_greaterThan_Fin:
  "0 < epsilon cfg \<Longrightarrow> pm_greaterThan cfg (Fin a) (Fin b) = Inr (epsilon cfg \<le> a - b)"
  by (auto simp: pm_greaterThan_def)

lemma pm_lessThan_Fin:
  "0 < epsilon cfg \<Longrightarrow> pm_lessThan cfg (Fin a) (Fin b) = Inr (epsilon cfg \<le> b - a)"
  by (auto simp: pm_lessThan_def)

lemma epsilon_default_pos: "0 < epsilon defaultConfig"
  by (simp add: epsilon_default)

section \<open>History\<close>

lemma saveToHistory_fields [simp]:
  "viewport (saveToHistory s) = viewport s" "constraints (saveToHistory s) = constraints s"
  by (simp_all add: saveToHistory_def Let_def)


lemma saveToHistory_last:
  "\<exists>pre. history (saveToHistory s) = pre @ [viewport s]"
  by (cases "history s") (auto simp: saveToHistory_def Let_def maxHistorySize_def)

lemma saveToHistory_last_two:
  assumes "history s = pre @ [u]"
  shows "\<exists>pre'. history (saveToHistory s) = pre' @ [u, viewport s]"
proof (cases pre)
  case Nil
  then show ?thesis using assms by (simp add: saveToHistory_def Let_def maxHistorySize_def)
next
  case (Cons a as)
  then show ?thesis using assms by (simp add: saveToHistory_def Let_def maxHistorySize_def)
qed

lemma commit_history:
  assumes "commit cfg s v = Inr s'"
  shows "\<exists>v'. s' = saveToHistory (s\<lparr>viewport := v'\<rparr>)"
  using assms by (auto simp: commit_def bindE_def split: sum.splits)

lemma pan_history:
  assumes "pan cfg s dx dy = Inr s'"
  shows "\<exists>v'. s' = saveToHistory (s\<lparr>viewport := v'\<rparr>)"
  using assms by (auto simp: pan_def bindE_def split: sum.splits dest: commit_history)

lemma undo_two:
  assumes "history s = pre @ [u, w]"
  shows "undo s = (True, saveToHistory (s\<lparr>viewport := u, history := pre\<rparr>))"
  using assms by (simp add: undo_def pop_def Let_def butlast_append)

lemma undo_short: "length (history s) \<le> 1 \<Longrightarrow> undo s = (False, s)"
  by (simp add: undo_def)

lemma undo_general:
  assumes "2 \<le> length (history s)"
  shows "undo s = (True, saveToHistory (s\<lparr>viewport := history s ! (length (history s) - 2),
                                          history := take (length (history s) - 2) (history s)\<rparr>))"
proof -
  obtain pre u w where h: "history s = pre @ [u, w]"
  proof -
    from assms obtain h1 w where 1: "history s = h1 @ [w]"
      by (metis append_butlast_last_id list.size(3) not_numeral_le_zero)
    with assms have "h1 \<noteq> []" by auto
    then obtain pre u where "h1 = pre @ [u]" by (metis append_butlast_last_id)
    with 1 that show ?thesis by simp
  qed
  then have "history s ! (length (history s) - 2) = u" by (simp add: nth_append)
  moreover from h have "take (length (history s) - 2) (history s) = pre" by simp
  ultimately show ?thesis using undo_two [OF h] by simp
qed

text \<open>
  C6. \<open>undo\<close> returns false and leaves the state alone when the history has at
  most one entry; otherwise it pops two entries, restores the second and records
  it. After \<open>reset(); pan(1,1); pan(2,2); undo()\<close> on any viewport, the current
  viewport is the one that held after \<open>pan(1,1)\<close>.
\<close>

theorem undo_pops_two_restores_previous:
  "(length (history this) \<le> 1 \<longrightarrow> undo this = (False, this)) \<and>
   (2 \<le> length (history this) \<longrightarrow>
      undo this =
        (True, saveToHistory
                 (this\<lparr>viewport := history this ! (length (history this) - 2),
                       history := take (length (history this) - 2) (history this)\<rparr>))) \<and>
   (pan cfg (reset this) (Fin 1) (Fin 1) = Inr s1 \<longrightarrow> pan cfg s1 (Fin 2) (Fin 2) = Inr s2 \<longrightarrow>
      fst (undo s2) \<and> viewport (snd (undo s2)) = viewport s1)"
proof (intro conjI impI)
  assume "length (history this) \<le> 1"
  then show "undo this = (False, this)" by (rule undo_short)
next
  assume "2 \<le> length (history this)"
  then show "undo this =
        (True, saveToHistory
                 (this\<lparr>viewport := history this ! (length (history this) - 2),
                       history := take (length (history this) - 2) (history this)\<rparr>))"
    by (rule undo_general)
next
  assume p1: "pan cfg (reset this) (Fin 1) (Fin 1) = Inr s1"
    and p2: "pan cfg s1 (Fin 2) (Fin 2) = Inr s2"
  from pan_history [OF p1] obtain v1 where s1: "s1 = saveToHistory (reset this\<lparr>viewport := v1\<rparr>)"
    by blast
  then obtain pre where h1: "history s1 = pre @ [viewport s1]"
    using saveToHistory_last [of "reset this\<lparr>viewport := v1\<rparr>"] by auto
  from pan_history [OF p2] obtain v2 where s2: "s2 = saveToHistory (s1\<lparr>viewport := v2\<rparr>)"
    by blast
  from h1 have "history (s1\<lparr>viewport := v2\<rparr>) = pre @ [viewport s1]" by simp
  from saveToHistory_last_two [OF this] s2
  obtain pre' where h2: "history s2 = pre' @ [viewport s1, v2]" by auto
  from undo_two [OF h2]
  show "fst (undo s2)" and "viewport (snd (undo s2)) = viewport s1" by simp_all
qed


lemma freshViewport_eq:
  "freshViewport = \<lparr> viewport = defaultViewport, constraints = defaultConstraints,
                      history = [defaultViewport] \<rparr>"
  by (simp add: freshViewport_def newGraphViewport_def saveToHistory_def noPatch_def
      noConstraintsPatch_def spreadViewport_def spreadConstraints_def orElse_def Let_def
      maxHistorySize_def defaultViewport_def defaultConstraints_def)

lemma reset_freshViewport:
  "reset freshViewport = \<lparr> viewport = defaultViewport, constraints = defaultConstraints,
                      history = [defaultViewport, defaultViewport] \<rparr>"
  by (simp add: freshViewport_eq reset_def saveToHistory_def Let_def
      maxHistorySize_def defaultViewport_def)

lemmas viewport_eval =
  enforceConstraints_def swapX_def swapY_def ensureMinX_def ensureMinY_def ensureMaxX_def
  ensureMaxY_def recentre_def commit_def bindE_def orE_def saveToHistory_def Let_def
  maxHistorySize_def pm_greaterThan_def pm_lessThan_def pm_midpoint_def
  finalizeResult_small epsilon_default

lemma pan_first:
  "pan defaultConfig (reset freshViewport) (Fin 1) (Fin 1) = Inr afterFirstPan"
  by (simp add: reset_freshViewport pan_def viewport_eval defaultViewport_def
      defaultConstraints_def afterFirstPan_def pannedOnce_def)

lemma pan_second:
  "pan defaultConfig afterFirstPan (Fin 2) (Fin 2) = Inr afterSecondPan"
  by (simp add: pan_def viewport_eval defaultViewport_def
      defaultConstraints_def afterFirstPan_def pannedOnce_def afterSecondPan_def pannedTwice_def)

theorem undo_scenario_witness:
  "undo freshViewport = (False, freshViewport) \<and>
   undo afterSecondPan =
     (True, \<lparr> viewport = pannedOnce, constraints = defaultConstraints,
              history = [defaultViewport, defaultViewport, pannedOnce] \<rparr>) \<and>
   fst (undo afterSecondPan) \<and> viewport (snd (undo afterSecondPan)) = pannedOnce"
proof -
  have short: "length (history freshViewport) \<le> 1" by (simp add: freshViewport_eq)
  have long: "2 \<le> length (history afterSecondPan)" by (simp add: afterSecondPan_def)
  have v1: "viewport afterFirstPan = pannedOnce" by (simp add: afterFirstPan_def)
  from undo_pops_two_restores_previous [of freshViewport defaultConfig afterFirstPan afterSecondPan]
    short pan_first pan_second v1
  have a: "undo freshViewport = (False, freshViewport)"
    and c: "fst (undo afterSecondPan) \<and> viewport (snd (undo afterSecondPan)) = pannedOnce"
    by simp_all
  from undo_pops_two_restores_previous [of afterSecondPan defaultConfig afterFirstPan afterSecondPan] long
  have "undo afterSecondPan =
        (True, saveToHistory
                 (afterSecondPan\<lparr>viewport := history afterSecondPan ! (length (history afterSecondPan) - 2),
                       history := take (length (history afterSecondPan) - 2) (history afterSecondPan)\<rparr>))"
    by blast
  then have b: "undo afterSecondPan =
     (True, \<lparr> viewport = pannedOnce, constraints = defaultConstraints,
              history = [defaultViewport, defaultViewport, pannedOnce] \<rparr>)"
    by (simp add: afterSecondPan_def saveToHistory_def Let_def maxHistorySize_def)
  from a b c show ?thesis by simp
qed

section \<open>Circuit breaker: budget and tripping\<close>

lemma execute_breaker_fields:
  "cb_name (fst (snd (execute b fn fallback w))) = cb_name b"
  "cb_maxOperations (fst (snd (execute b fn fallback w))) = cb_maxOperations b"
  "operationCount (fst (snd (execute b fn fallback w))) = operationCount b + 1"
  by (auto simp: execute_def Let_def split: option.splits prod.splits sum.splits)

lemma executeAll_fields:
  "executeAll b calls w = (b', w') \<Longrightarrow>
     cb_name b' = cb_name b \<and> cb_maxOperations b' = cb_maxOperations b \<and>
     operationCount b' = operationCount b + length calls"
proof (induction calls arbitrary: b w)
  case Nil
  then show ?case by simp
next
  case (Cons c calls)
  obtain fn fallback where c: "c = (fn, fallback)" by (cases c)
  obtain r b1 w1 where e: "execute b fn fallback w = (r, b1, w1)" by (cases "execute b fn fallback w")
  with Cons.prems c have "executeAll b1 calls w1 = (b', w')" by simp
  from Cons.IH [OF this] execute_breaker_fields [of b fn fallback w] e
  show ?case by simp
qed

lemma execute_within_budget:
  "operationCount b < cb_maxOperations b \<Longrightarrow>
     fst (execute b fn fallback w) = fst (fn w) \<and> snd (snd (execute b fn fallback w)) = snd (fn w)"
  by (auto simp: execute_def Let_def split: prod.splits sum.splits)

lemma execute_over_budget_fallback:
  "cb_maxOperations b \<le> operationCount b \<Longrightarrow>
     fst (execute b fn (Some fb) w) = fst (fb w) \<and> snd (snd (execute b fn (Some fb) w)) = snd (fb w)"
  by (auto simp: execute_def Let_def split: prod.splits)

lemma execute_over_budget_error:
  "cb_maxOperations b \<le> operationCount b \<Longrightarrow>
     execute b fn None w =
       (Inl (CircuitBreakerError (cb_name b) (cb_maxOperations b) (operationCount b + 1)),
        b\<lparr>operationCount := operationCount b + 1, isTripped := True\<rparr>, w)"
  by (simp add: execute_def Let_def)

lemma execute_over_budget_trips:
  "cb_maxOperations b \<le> operationCount b \<Longrightarrow> isTripped (fst (snd (execute b fn fallback w)))"
  by (auto simp: execute_def Let_def split: option.splits prod.splits)

lemma execute_throw_trips:
  "fst (fn w) = Inl e \<Longrightarrow> isTripped (fst (snd (execute b fn fallback w)))"
  by (auto simp: execute_def Let_def split: option.splits prod.splits sum.splits)

lemma execute_stays_tripped:
  "isTripped b \<Longrightarrow> isTripped (fst (snd (execute b fn fallback w)))"
  by (auto simp: execute_def Let_def split: option.splits prod.splits sum.splits)

text \<open>
  C7. After any run of calls on a breaker built with \<open>maxOperations = n\<close>, the
  next call invokes \<open>fn\<close> and returns its outcome if fewer than \<open>n\<close> calls
  came before. Otherwise \<open>fn\<close> is not invoked: the fallback's outcome is
  returned, or a \<open>CircuitBreakerError\<close> with the breaker's name, \<open>n\<close> and the
  operation count is raised and the state is untouched; the breaker is tripped.
  A throwing \<open>fn\<close> trips the breaker, a tripped breaker stays tripped through
  \<open>execute\<close>, and \<open>reset\<close> gives back the initial breaker.
\<close>

theorem breaker_budget:
  assumes "executeAll (newCircuitBreaker nm n) calls w0 = (b, w)"
  shows
    "(length calls < n \<longrightarrow>
        fst (execute b fn fallback w) = fst (fn w) \<and>
        snd (snd (execute b fn fallback w)) = snd (fn w)) \<and>
     (n \<le> length calls \<longrightarrow>
        (case fallback of
           Some fb \<Rightarrow> fst (execute b fn fallback w) = fst (fb w) \<and>
                      snd (snd (execute b fn fallback w)) = snd (fb w)
         | None \<Rightarrow> fst (execute b fn fallback w) =
                      Inl (CircuitBreakerError nm n (length calls + 1)) \<and>
                   snd (snd (execute b fn fallback w)) = w) \<and>
        getTripped (fst (snd (execute b fn fallback w)))) \<and>
     ((\<exists>e. fst (fn w) = Inl e) \<longrightarrow> getTripped (fst (snd (execute b fn fallback w)))) \<and>
     (getTripped b \<longrightarrow> getTripped (fst (snd (execute b fn fallback w)))) \<and>
     resetBreaker (fst (snd (execute b fn fallback w))) = newCircuitBreaker nm n"
proof -
  from executeAll_fields [OF assms]
  have f: "cb_name b = nm" "cb_maxOperations b = n" "operationCount b = length calls"
    by (simp_all add: newCircuitBreaker_def)
  have 1: "length calls < n \<longrightarrow>
        fst (execute b fn fallback w) = fst (fn w) \<and>
        snd (snd (execute b fn fallback w)) = snd (fn w)"
    using execute_within_budget [of b fn fallback w] f by simp
  have 2: "n \<le> length calls \<longrightarrow>
        (case fallback of
           Some fb \<Rightarrow> fst (execute b fn fallback w) = fst (fb w) \<and>
                      snd (snd (execute b fn fallback w)) = snd (fb w)
         | None \<Rightarrow> fst (execute b fn fallback w) =
                      Inl (CircuitBreakerError nm n (length calls + 1)) \<and>
                   snd (snd (execute b fn fallback w)) = w)"
    using f
    by (auto split: option.splits simp: execute_over_budget_fallback execute_over_budget_error)
  have 3: "n \<le> length calls \<longrightarrow> getTripped (fst (snd (execute b fn fallback w)))"
    using execute_over_budget_trips [of b fn fallback w] f by (simp add: getTripped_def)
  have 4: "(\<exists>e. fst (fn w) = Inl e) \<longrightarrow> getTripped (fst (snd (execute b fn fallback w)))"
    by (auto simp: getTripped_def execute_throw_trips)
  have 5: "getTripped b \<longrightarrow> getTripped (fst (snd (execute b fn fallback w)))"
    using execute_stays_tripped [of b fn fallback w] by (simp add: getTripped_def)
  have 6: "resetBreaker (fst (snd (execute b fn fallback w))) = newCircuitBreaker nm n"
    using execute_breaker_fields [of b fn fallback w] f
    by (simp add: resetBreaker_def newCircuitBreaker_def)
  from 1 2 3 4 5 6 show ?thesis by blast
qed

lemma executeAll_one_bump:
  "executeAll (newCircuitBreaker ''sampler'' 1) [(bump, None)] (0::nat) =
     (\<lparr>cb_name = ''sampler'', cb_maxOperations = 1, operationCount = 1, isTripped = False\<rparr>, 1)"
  by (simp add: newCircuitBreaker_def execute_def bump_def Let_def)

lemma executeAll_one_failing:
  "executeAll (newCircuitBreaker ''sampler'' 2) [(failing, None)] (0::nat) =
     (\<lparr>cb_name = ''sampler'', cb_maxOperations = 2, operationCount = 1, isTripped = True\<rparr>, 10)"
  by (simp add: newCircuitBreaker_def execute_def failing_def Let_def)

theorem breaker_budget_witness:
  "fst (execute (newCircuitBreaker ''sampler'' 1) failing (Some bump) (0::nat)) = Inl UserError \<and>
   snd (snd (execute (newCircuitBreaker ''sampler'' 1) failing (Some bump) (0::nat))) = 10 \<and>
   getTripped (fst (snd (execute (newCircuitBreaker ''sampler'' 1) failing (Some bump) (0::nat)))) \<and>
   fst (execute \<lparr>cb_name = ''sampler'', cb_maxOperations = 1, operationCount = 1,
                  isTripped = False\<rparr> bump None (1::nat)) =
     Inl (CircuitBreakerError ''sampler'' 1 2) \<and>
   snd (snd (execute \<lparr>cb_name = ''sampler'', cb_maxOperations = 1, operationCount = 1,
                  isTripped = False\<rparr> bump None (1::nat))) = 1 \<and>
   getTripped (fst (snd (execute \<lparr>cb_name = ''sampler'', cb_maxOperations = 1,
                  operationCount = 1, isTripped = False\<rparr> bump None (1::nat)))) \<and>
   fst (execute \<lparr>cb_name = ''sampler'', cb_maxOperations = 2, operationCount = 1,
                  isTripped = True\<rparr> bump None (10::nat)) = Inr 10 \<and>
   getTripped (fst (snd (execute \<lparr>cb_name = ''sampler'', cb_maxOperations = 2,
                  operationCount = 1, isTripped = True\<rparr> bump None (10::nat))))"
proof -
  have start: "executeAll (newCircuitBreaker ''sampler'' 1) [] (0::nat) =
     (newCircuitBreaker ''sampler'' 1, 0)" by simp
  have thrown: "\<exists>e. fst (failing (0::nat)) = Inl e" by (simp add: failing_def)
  from breaker_budget [OF start, of failing "Some bump"] thrown
  have a: "fst (execute (newCircuitBreaker ''sampler'' 1) failing (Some bump) (0::nat)) = Inl UserError \<and>
   snd (snd (execute (newCircuitBreaker ''sampler'' 1) failing (Some bump) (0::nat))) = 10 \<and>
   getTripped (fst (snd (execute (newCircuitBreaker ''sampler'' 1) failing (Some bump) (0::nat))))"
    by (simp add: failing_def)
  from breaker_budget [OF executeAll_one_bump, of bump None]
  have b: "fst (execute \<lparr>cb_name = ''sampler'', cb_maxOperations = 1, operationCount = 1,
                  isTripped = False\<rparr> bump None (1::nat)) =
     Inl (CircuitBreakerError ''sampler'' 1 2) \<and>
   snd (snd (execute \<lparr>cb_name = ''sampler'', cb_maxOperations = 1, operationCount = 1,
                  isTripped = False\<rparr> bump None (1::nat))) = 1 \<and>
   getTripped (fst (snd (execute \<lparr>cb_name = ''sampler'', cb_maxOperations = 1,
                  operationCount = 1, isTripped = False\<rparr> bump None (1::nat))))"
    by simp
  have tripped: "getTripped \<lparr>cb_name = ''sampler'', cb_maxOperations = 2, operationCount = 1,
                  isTripped = True\<rparr>" by (simp add: getTripped_def)
  from breaker_budget [OF executeAll_one_failing, of bump None] tripped
  have c: "fst (execute \<lparr>cb_name = ''sampler'', cb_maxOperations = 2, operationCount = 1,
                  isTripped = True\<rparr> bump None (10::nat)) = Inr 10 \<and>
   getTripped (fst (snd (execute \<lparr>cb_name = ''sampler'', cb_maxOperations = 2,
                  operationCount = 1, isTripped = True\<rparr> bump None (10::nat))))"
    by (simp add: bump_def)
  from a b c show ?thesis by blast
qed

section \<open>Marching squares: segment count and polyline length\<close>

lemma orDefault_pos: "0 < d \<Longrightarrow> 0 < orDefault v (d::nat)"
  by (cases v) auto

lemma marchCells_length:
  "length segments < maxSeg \<Longrightarrow> length (marchCells poly maxSeg cells segments) \<le> maxSeg"
proof (induction cells arbitrary: segments)
  case Nil
  then show ?case by simp
next
  case (Cons c cells)
  obtain i j where c: "c = (i, j)" by (cases c)
  show ?case
  proof (cases "2 \<le> length (poly i j)")
    case False
    with Cons c show ?thesis by simp
  next
    case True
    show ?thesis
    proof (cases "maxSeg \<le> length (segments @ [poly i j])")
      case True
      with \<open>2 \<le> length (poly i j)\<close> Cons.prems c show ?thesis by (simp add: Let_def)
    next
      case False
      then have "length (segments @ [poly i j]) < maxSeg" by simp
      from Cons.IH [OF this] False \<open>2 \<le> length (poly i j)\<close> c
      show ?thesis by (simp add: Let_def)
    qed
  qed
qed

lemma marchCells_polylines:
  "\<forall>p \<in> set segments. 2 \<le> length p \<Longrightarrow>
     \<forall>p \<in> set (marchCells poly maxSeg cells segments). 2 \<le> length p"
proof (induction cells arbitrary: segments)
  case Nil
  then show ?case by simp
next
  case (Cons c cells)
  obtain i j where c: "c = (i, j)" by (cases c)
  show ?case
  proof (cases "2 \<le> length (poly i j)")
    case False
    with Cons c show ?thesis by simp
  next
    case True
    with Cons.prems have ext: "\<forall>p \<in> set (segments @ [poly i j]). 2 \<le> length p" by simp
    show ?thesis
    proof (cases "maxSeg \<le> length (segments @ [poly i j])")
      case True
      with \<open>2 \<le> length (poly i j)\<close> ext c show ?thesis by (simp add: Let_def)
    next
      case False
      from Cons.IH [OF ext] False \<open>2 \<le> length (poly i j)\<close> c
      show ?thesis by (simp add: Let_def)
    qed
  qed
qed

lemma marchCells_stops:
  "length segments < maxSeg \<Longrightarrow> maxSeg \<le> length (marchCells poly maxSeg cells segments) \<Longrightarrow>
     marchCells poly maxSeg (cells @ later) segments = marchCells poly maxSeg cells segments"
proof (induction cells arbitrary: segments)
  case Nil
  then show ?case by simp
next
  case (Cons c cells)
  obtain i j where c: "c = (i, j)" by (cases c)
  show ?case
  proof (cases "2 \<le> length (poly i j)")
    case False
    with Cons c show ?thesis by simp
  next
    case True
    show ?thesis
    proof (cases "maxSeg \<le> length (segments @ [poly i j])")
      case True
      with \<open>2 \<le> length (poly i j)\<close> c show ?thesis by (simp add: Let_def)
    next
      case False
      then have lt: "length (segments @ [poly i j]) < maxSeg" by simp
      from Cons.prems(2) False \<open>2 \<le> length (poly i j)\<close> c
      have "maxSeg \<le> length (marchCells poly maxSeg cells (segments @ [poly i j]))"
        by (simp add: Let_def)
      from Cons.IH [OF lt this] False \<open>2 \<le> length (poly i j)\<close> c
      show ?thesis by (simp add: Let_def)
    qed
  qed
qed

text \<open>
  C9. \<open>marchingSquares\<close> returns at most the effective \<open>maxSegments\<close>
  polylines (the option, or 10000 when it is absent or 0), and every polyline
  it returns has at least two points. The cell loop stops once the count is
  reached: cells that come later do not change the result.
\<close>

theorem marchingSquares_bounded:
  "length (marchingSquares fn xlo xhi ylo yhi options) \<le> orDefault (opt_maxSegments options) 10000
   \<and> (\<forall>poly \<in> set (marchingSquares fn xlo xhi ylo yhi options). 2 \<le> length poly)
   \<and> (length segments < maxSeg \<longrightarrow> maxSeg \<le> length (marchCells poly maxSeg cells segments) \<longrightarrow>
        marchCells poly maxSeg (cells @ later) segments = marchCells poly maxSeg cells segments)"
proof -
  have "0 < orDefault (opt_maxSegments options) 10000" by (rule orDefault_pos) simp
  then show ?thesis
    using marchCells_polylines [of "[]"] marchCells_stops [of segments maxSeg poly cells later]
    by (simp add: marchingSquares_def Let_def marchCells_length)
qed

lemma overflow_small: "\<bar>r\<bar> \<le> 10 ^ 15 \<Longrightarrow> overflow r = Fin r"
  using MAX_VALUE_large by (simp add: overflow_def abs_le_iff)

lemma marchingSquares_unit_cell:
  "marchingSquares heightFn (Fin 0) (Fin 1) (Fin 0) (Fin 1) oneCell =
     [[\<lparr>px = Fin 0, py = Fin (1 / 2)\<rparr>, \<lparr>px = Fin 1, py = Fin (1 / 2)\<rparr>]]"
  by (simp add: marchingSquares_def oneCell_def noMarchingOptions_def orElse_def Let_def
      jsSub_def overflow_small evalGrid_def gridCoord_def gridValue_def heightFn_def
      cellOrder_def cellPoly_def above_def edgeTable_def sampleEdge_def crossingPoint_def
      upt_two)

theorem marchingSquares_bounded_witness:
  "length (marchingSquares heightFn (Fin 0) (Fin 1) (Fin 0) (Fin 1) oneCell) \<le> 10000 \<and>
   2 \<le> length [\<lparr>px = Fin 0, py = Fin (1 / 2)\<rparr>, \<lparr>px = Fin 1, py = Fin (1 / 2)\<rparr>] \<and>
   marchingSquares heightFn (Fin 0) (Fin 1) (Fin 0) (Fin 1) oneCell =
     [[\<lparr>px = Fin 0, py = Fin (1 / 2)\<rparr>, \<lparr>px = Fin 1, py = Fin (1 / 2)\<rparr>]] \<and>
   marchCells (\<lambda>i j. [\<lparr>px = Fin (real i), py = Fin 0\<rparr>, \<lparr>px = Fin (real j), py = Fin 1\<rparr>]) 1
     ([(0, 0)] @ [(1, 0), (2, 0)]) [] =
     [[\<lparr>px = Fin 0, py = Fin 0\<rparr>, \<lparr>px = Fin 0, py = Fin 1\<rparr>]]"
proof -
  let ?poly = "\<lambda>i j. [\<lparr>px = Fin (real i), py = Fin 0\<rparr>, \<lparr>px = Fin (real j), py = Fin 1\<rparr>]"
  have mem: "[\<lparr>px = Fin 0, py = Fin (1 / 2)\<rparr>, \<lparr>px = Fin 1, py = Fin (1 / 2)\<rparr>]
      \<in> set (marchingSquares heightFn (Fin 0) (Fin 1) (Fin 0) (Fin 1) oneCell)"
    by (simp add: marchingSquares_unit_cell)
  have opt: "orDefault (opt_maxSegments oneCell) 10000 = 10000"
    by (simp add: oneCell_def noMarchingOptions_def)
  have first: "marchCells ?poly 1 [(0, 0)] [] =
      [[\<lparr>px = Fin 0, py = Fin 0\<rparr>, \<lparr>px = Fin 0, py = Fin 1\<rparr>]]"
    by (simp add: Let_def)
  have pre: "length ([]::Point list list) < 1" "1 \<le> length (marchCells ?poly 1 [(0, 0)] [])"
    by (simp_all add: Let_def)
  from marchingSquares_bounded [of heightFn "Fin 0" "Fin 1" "Fin 0" "Fin 1" oneCell "[]" 1
      ?poly "[(0, 0)]" "[(1, 0), (2, 0)]"] mem opt pre first
  show ?thesis using marchingSquares_unit_cell by auto
qed

section \<open>Marching squares: where the points lie\<close>























section \<open>The sort invariant of the sampler\<close>







section \<open>Zoom at the limits\<close>

lemma bindE_Inr: "bindE (Inr v) k = k v"
  by (simp add: bindE_def)

lemma pm_divide_ok:
  "epsilon cfg \<le> \<bar>b\<bar> \<Longrightarrow> \<bar>a / b\<bar> \<le> MAX_VALUE \<Longrightarrow> pm_divide cfg (Fin a) (Fin b) = Inr (Fin (a / b))"
  by (simp add: finalizeResult_ok)

text \<open>
  C5, amended. When the new width or height compares below the minimum or above
  the maximum range under \<open>lessThan\<close>/\<open>greaterThan\<close>, that is by at least
  epsilon, or the new zoom level compares above \<open>maxZoomLevel\<close>, \<open>zoom\<close>
  returns the state as it was, viewport and history included; and so does any
  number of repetitions of the call.
\<close>

theorem zoom_rejected_is_noop:
  assumes eps: "0 < epsilon cfg"
    and zc: "centerArg \<noteq> None \<or> (\<exists>c. center this = Inr c)"
    and w: "width this = Inr (Fin w)" and h: "height this = Inr (Fin h)"
    and f: "epsilon cfg \<le> \<bar>f\<bar>" "\<bar>w / f\<bar> \<le> MAX_VALUE" "\<bar>h / f\<bar> \<le> MAX_VALUE"
    and cons: "constraints this =
                 \<lparr> minXRange = Fin mnx, minYRange = Fin mny, maxXRange = Fin mxx,
                   maxYRange = Fin mxy, maxZoomLevel = Fin mz \<rparr>"
    and out: "epsilon cfg \<le> mnx - w / f \<or> epsilon cfg \<le> mny - h / f \<or>
              epsilon cfg \<le> w / f - mxx \<or> epsilon cfg \<le> h / f - mxy \<or>
              (epsilon cfg \<le> \<bar>w / f\<bar> \<and> \<bar>20 / (w / f)\<bar> \<le> MAX_VALUE \<and>
               epsilon cfg \<le> 20 / (w / f) - mz)"
  shows "zoom cfg this (Fin f) centerArg = Inr this \<and>
         zoomTimes n cfg this (Fin f) centerArg = Inr this"
proof -
  from zc obtain c where c: "(case centerArg of Some c \<Rightarrow> Inr c | None \<Rightarrow> center this) = Inr c"
    by (cases centerArg) auto
  have nw: "pm_divide cfg (Fin w) (Fin f) = Inr (Fin (w / f))" using f(1,2) by (rule pm_divide_ok)
  have nh: "pm_divide cfg (Fin h) (Fin f) = Inr (Fin (h / f))" using f(1,3) by (rule pm_divide_ok)
  have g1: "orE (pm_lessThan cfg (Fin (w / f)) (minXRange (constraints this)))
                (pm_lessThan cfg (Fin (h / f)) (minYRange (constraints this))) =
            Inr (epsilon cfg \<le> mnx - w / f \<or> epsilon cfg \<le> mny - h / f)"
    using eps cons by (simp add: orE_def pm_lessThan_Fin split: bool.splits)
  have g2: "orE (pm_greaterThan cfg (Fin (w / f)) (maxXRange (constraints this)))
                (pm_greaterThan cfg (Fin (h / f)) (maxYRange (constraints this))) =
            Inr (epsilon cfg \<le> w / f - mxx \<or> epsilon cfg \<le> h / f - mxy)"
    using eps cons by (simp add: orE_def pm_greaterThan_Fin split: bool.splits)
  have one: "zoom cfg this (Fin f) centerArg = Inr this"
  proof (cases "(epsilon cfg \<le> mnx - w / f \<or> epsilon cfg \<le> mny - h / f) \<or>
                (epsilon cfg \<le> w / f - mxx \<or> epsilon cfg \<le> h / f - mxy)")
    case True
    then show ?thesis
      unfolding zoom_def c w h nw nh g1 g2 bindE_Inr by auto
  next
    case False
    with out have z: "epsilon cfg \<le> \<bar>w / f\<bar>" "\<bar>20 / (w / f)\<bar> \<le> MAX_VALUE"
      "epsilon cfg \<le> 20 / (w / f) - mz" by auto
    from z(1,2) have zl: "pm_divide cfg (Fin 20) (Fin (w / f)) = Inr (Fin (20 / (w / f)))"
      by (rule pm_divide_ok)
    have g3: "pm_greaterThan cfg (Fin (20 / (w / f))) (maxZoomLevel (constraints this)) = Inr True"
      using eps cons z(3) by (simp add: pm_greaterThan_Fin)
    show ?thesis
      unfolding zoom_def c w h nw nh g1 g2 zl g3 bindE_Inr by simp
  qed
  have "zoomTimes n cfg this (Fin f) centerArg = Inr this"
    by (induction n) (simp_all add: one bindE_Inr)
  with one show ?thesis by simp
qed

theorem zoom_rejected_witness:
  "zoom defaultConfig freshViewport (Fin (1 / 10 ^ 12)) None = Inr freshViewport \<and>
   zoomTimes 3 defaultConfig freshViewport (Fin (1 / 10 ^ 12)) None = Inr freshViewport"
proof -
  have c: "None \<noteq> None \<or> (\<exists>c. center freshViewport = Inr c)"
    by (simp add: freshViewport_eq center_def defaultViewport_def viewport_eval)
  have w: "width freshViewport = Inr (Fin 20)"
    by (simp add: freshViewport_eq width_def defaultViewport_def finalizeResult_small)
  have h: "height freshViewport = Inr (Fin 20)"
    by (simp add: freshViewport_eq height_def defaultViewport_def finalizeResult_small)
  have f: "epsilon defaultConfig \<le> \<bar>1 / 10 ^ 12 :: real\<bar>"
    "\<bar>20 / (1 / 10 ^ 12) :: real\<bar> \<le> MAX_VALUE"
    using MAX_VALUE_large by (simp_all add: epsilon_default)
  have cons: "constraints freshViewport =
      \<lparr> minXRange = Fin (1 / 10 ^ 10), minYRange = Fin (1 / 10 ^ 10), maxXRange = Fin (10 ^ 12),
        maxYRange = Fin (10 ^ 12), maxZoomLevel = Fin (10 ^ 12) \<rparr>"
    by (simp add: freshViewport_eq defaultConstraints_def)
  have out: "epsilon defaultConfig \<le> 1 / 10 ^ 10 - 20 / (1 / 10 ^ 12) \<or>
      epsilon defaultConfig \<le> 1 / 10 ^ 10 - 20 / (1 / 10 ^ 12) \<or>
      epsilon defaultConfig \<le> 20 / (1 / 10 ^ 12) - 10 ^ 12 \<or>
      epsilon defaultConfig \<le> 20 / (1 / 10 ^ 12) - 10 ^ 12 \<or>
      (epsilon defaultConfig \<le> \<bar>20 / (1 / 10 ^ 12)\<bar> \<and> \<bar>20 / (20 / (1 / 10 ^ 12))\<bar> \<le> MAX_VALUE \<and>
       epsilon defaultConfig \<le> 20 / (20 / (1 / 10 ^ 12)) - 10 ^ 12)"
    by (simp add: epsilon_default)
  show ?thesis
    by (rule zoom_rejected_is_noop [OF epsilon_default_pos c w h f(1) f(2) f(2) cons out])
qed

lemma narrowState_eq:
  "narrowState =
     \<lparr> viewport = \<lparr> xMin = Fin 0, xMax = Fin (1999998 / 10 ^ 16), yMin = Fin (- 10),
                    yMax = Fin 10, pixelRatio = Fin 1 \<rparr>,
       constraints = defaultConstraints,
       history = [\<lparr> xMin = Fin 0, xMax = Fin (1999998 / 10 ^ 16), yMin = Fin (- 10),
                    yMax = Fin 10, pixelRatio = Fin 1 \<rparr>] \<rparr>"
  by (simp add: narrowState_def newGraphViewport_def saveToHistory_def noPatch_def
      noConstraintsPatch_def spreadViewport_def spreadConstraints_def orElse_def Let_def
      maxHistorySize_def defaultViewport_def defaultConstraints_def)

text \<open>
  C5 as stated fails inside the comparator's tolerance: from the window
  \<open>[0, 1.999998e-10] \<times> [-10, 10]\<close> a zoom by 2 gives the width
  \<open>9.99999e-11\<close>, below \<open>minXRange = 1e-10\<close> by less than epsilon; the call
  goes through, moves the window and records it.
\<close>

theorem zoom_below_minimum_counterexample:
  "width narrowState = Inr (Fin (1999998 / 10 ^ 16)) \<and>
   pm_divide defaultConfig (Fin (1999998 / 10 ^ 16)) (Fin 2) = Inr (Fin (999999 / 10 ^ 16)) \<and>
   minXRange (constraints narrowState) = Fin (1 / 10 ^ 10) \<and>
   (999999 / 10 ^ 16 :: real) < 1 / 10 ^ 10 \<and>
   zoom defaultConfig narrowState (Fin 2) None = Inr zoomedNarrow \<and>
   viewport zoomedNarrow \<noteq> viewport narrowState \<and>
   length (history zoomedNarrow) = length (history narrowState) + 1"
  by (simp add: narrowState_eq zoomedNarrow_def width_def height_def center_def zoom_def
      viewport_eval defaultConstraints_def)

section \<open>Viewport: what enforceConstraints establishes\<close>

























section \<open>The sampler returns, with finite points\<close>



























section \<open>How far the point count can exceed maxPoints\<close>

lemma addPoint_length:
  assumes run: "addPoint cfg fn u v count points i = Inr points'"
  shows "length points' \<le> length points + 1"
proof -
  from run obtain t where t: "(if count = 1 then Inr (Fin 0)
            else pm_divide cfg (Fin (real i)) (Fin (real count - 1))) = Inr t"
    unfolding addPoint_def by (auto split: sum.splits)
  from run t obtain w where w: "pm_subtract v u = Inr w"
    unfolding addPoint_def by (auto split: sum.splits)
  from run t w obtain ti where ti: "pm_multiply t w = Inr ti"
    unfolding addPoint_def by (auto split: sum.splits)
  from run t w ti obtain x where x: "pm_add u ti = Inr x"
    unfolding addPoint_def by (auto split: sum.splits)
  from run t w ti x have
    "points' = (if isValid (safeEvaluate fn x) then points @ [\<lparr>px = x, py = safeEvaluate fn x\<rparr>]
                else points)"
    unfolding addPoint_def by (simp add: Let_def split: if_splits)
  then show ?thesis by simp
qed

lemma addPoints_two_length:
  assumes "addPoints cfg fn u v points 2 = Inr points'"
  shows "length points' \<le> length points + 2"
proof -
  from assms obtain p1 where p1: "addPoint cfg fn u v 2 points 0 = Inr p1"
    and p2: "addPoint cfg fn u v 2 p1 (Suc 0) = Inr points'"
    by (auto simp: addPoints_def upt_two split: sum.splits)
  from addPoint_length [OF p1] addPoint_length [OF p2] show ?thesis by simp
qed

lemma sampleStep_length:
  assumes run: "sampleStep cfg fn tol md iv stack points = Inr (stack', points')"
  shows "length points' \<le> length points + 2"
proof -
  obtain u v d where iv: "iv = (u, v, d)" by (cases iv)
  have emit: "(case addPoints cfg fn u v points 2 of Inl e \<Rightarrow> Inl e
               | Inr ps \<Rightarrow> Inr (stack, ps)) = Inr (stack', points') \<Longrightarrow> ?thesis"
    using addPoints_two_length by (auto split: sum.splits)
  show ?thesis
  proof (cases "md \<le> d")
    case True
    with run iv emit show ?thesis by (simp add: sampleStep_def)
  next
    case deep: False
    with run iv obtain mid where mid: "pm_midpoint u v = Inr mid"
      by (cases "pm_midpoint u v") (auto simp: sampleStep_def)
    show ?thesis
    proof (cases "\<not> isValid (safeEvaluate fn u) \<or> \<not> isValid (safeEvaluate fn v) \<or>
                  \<not> isValid (safeEvaluate fn mid)")
      case True
      with run iv deep mid emit show ?thesis by (simp add: sampleStep_def Let_def)
    next
      case valid: False
      with run iv deep mid obtain e where e: "pm_midpoint (safeEvaluate fn u) (safeEvaluate fn v) = Inr e"
        by (cases "pm_midpoint (safeEvaluate fn u) (safeEvaluate fn v)")
          (auto simp: sampleStep_def Let_def)
      with run iv deep mid valid obtain df where df: "pm_subtract (safeEvaluate fn mid) e = Inr df"
        by (cases "pm_subtract (safeEvaluate fn mid) e") (auto simp: sampleStep_def Let_def)
      let ?err = "case df of Fin r \<Rightarrow> Fin \<bar>r\<bar> | PosInf \<Rightarrow> PosInf | NegInf \<Rightarrow> PosInf | NaN \<Rightarrow> NaN"
      from run iv deep mid valid e df obtain l where l: "pm_lessThan cfg ?err (Fin tol) = Inr l"
        by (cases "pm_lessThan cfg ?err (Fin tol)") (auto simp: sampleStep_def Let_def)
      show ?thesis
      proof (cases l)
        case True
        with run iv deep mid valid e df l emit show ?thesis by (simp add: sampleStep_def Let_def)
      next
        case False
        with run iv deep mid valid e df l have "points' = points"
          by (simp add: sampleStep_def Let_def)
        then show ?thesis by simp
      qed
    qed
  qed
qed

lemma sampleLoop_length:
  "sampleLoop cfg fn tol md mp limit stack points g = Inr (pts, g') \<Longrightarrow>
   length points \<le> mp + 1 \<Longrightarrow> length pts \<le> mp + 1"
proof (induction cfg fn tol md mp limit stack points g rule: sampleLoop.induct)
  case (1 cfg fn tol md mp limit stack points g)
  note run = "1.prems"(1) and len = "1.prems"(2)
  show ?case
  proof (cases stack)
    case Nil
    with run len show ?thesis by (subst (asm) sampleLoop.simps) simp
  next
    case (Cons iv rest)
    show ?thesis
    proof (cases "length points < mp \<and> \<not> limit \<le> g + 1")
      case False
      with Cons run len show ?thesis by (subst (asm) sampleLoop.simps) (auto split: if_splits)
    next
      case True
      with Cons run obtain stack' points' where
        step: "sampleStep cfg fn tol md iv rest points = Inr (stack', points')"
        and rec: "sampleLoop cfg fn tol md mp limit stack' points' (g + 1) = Inr (pts, g')"
        by (subst (asm) sampleLoop.simps) (auto split: sum.splits)
      from True have c1: "\<not> \<not> length points < mp" and c2: "\<not> limit \<le> g + 1" by simp_all
      from sampleStep_length [OF step] True have "length points' \<le> mp + 1" by simp
      from "1.IH" [OF Cons c1 c2 step refl rec this] show ?thesis .
    qed
  qed
qed

lemma insertBy_length: "insertBy cmp v ws = Inr r \<Longrightarrow> length r = length ws + 1"
proof (induction ws arbitrary: r)
  case Nil
  then show ?case by auto
next
  case (Cons w ws)
  from Cons.prems obtain c where c: "cmp v w = Inr c"
    by (cases "cmp v w") auto
  show ?case
  proof (cases "c < 0")
    case True
    with Cons.prems c show ?thesis by auto
  next
    case False
    with Cons.prems c obtain r' where r': "insertBy cmp v ws = Inr r'" "r = w # r'"
      by (cases "insertBy cmp v ws") auto
    from Cons.IH [OF r'(1)] r'(2) show ?thesis by simp
  qed
qed

lemma sortBy_length: "sortBy cmp vs = Inr r \<Longrightarrow> length r = length vs"
proof -
  have "foldE (\<lambda>acc v. insertBy cmp v acc) acc vs = Inr r \<Longrightarrow> length r = length acc + length vs"
    for acc
  proof (induction vs arbitrary: acc)
    case Nil
    then show ?case by simp
  next
    case (Cons v vs)
    from Cons.prems obtain acc' where a: "insertBy cmp v acc = Inr acc'"
      "foldE (\<lambda>acc v. insertBy cmp v acc) acc' vs = Inr r" by (auto split: sum.splits)
    from Cons.IH [OF a(2)] insertBy_length [OF a(1)] show ?case by simp
  qed
  from this [of "[]"] show "sortBy cmp vs = Inr r \<Longrightarrow> length r = length vs" by (simp add: sortBy_def)
qed

text \<open>
  The bound that does hold: a list returned by \<open>sample\<close> has at most one
  point more than the effective \<open>maxPoints\<close>.
\<close>

theorem sample_length_bound:
  assumes "sample this cfg g fn domain options = Inr (pts, g')"
  shows "length pts \<le> orDefault (opt_maxPoints options) (maxPoints this) + 1"
proof -
  from assms obtain points where
    loop: "sampleLoop cfg fn (orDefault (opt_tolerance options) (tolerance this))
             (orDefault (opt_maxDepth options) (maxDepth this))
             (orDefault (opt_maxPoints options) (maxPoints this))
             (g + orDefault (opt_maxOperations options) (maxOperations this))
             [(fst domain, snd domain, 0)] [] g = Inr (points, g')"
    and srt: "sortBy (\<lambda>p q. pm_compare cfg (px p) (px q)) points = Inr pts"
    by (auto simp: sample_def Let_def split: sum.splits prod.splits)
  from sampleLoop_length [OF loop] have "length points \<le> orDefault (opt_maxPoints options) (maxPoints this) + 1"
    by simp
  with sortBy_length [OF srt] show ?thesis by simp
qed

theorem sample_length_bound_witness:
  "length [\<lparr>px = Fin 0, py = Fin 0\<rparr>, \<lparr>px = Fin 1, py = Fin 0\<rparr>] \<le>
     orDefault (opt_maxPoints (noOptions\<lparr>opt_maxPoints := Some 1\<rparr>))
       (maxPoints (newAdaptiveSampler noOptions)) + 1"
  by (rule sample_length_bound [OF sample_constZero_unit [of 0 1]])

end
